theory Spec2Isabelle
  imports Main "HOL-Library.Word"
begin

section \<open>Strings and values of the host language\<close>

text \<open>
  A JavaScript string is a sequence of 16-bit code units. String literals of the source
  are ASCII and are embedded with \<open>lit\<close>.
\<close>

type_synonym jsstring = "16 word list"

definition lit :: "string \<Rightarrow> jsstring" where
  "lit s = map (\<lambda>c. of_nat (of_char c)) s"

text \<open>
  The code units that \<^verbatim>\<open>String.prototype.trim\<close> and \<^verbatim>\<open>parseInt\<close> strip: the
  WhiteSpace and LineTerminator productions of ECMAScript (TAB, LF, VT, FF, CR, SP, NBSP,
  U+1680, U+2000..U+200A, U+2028, U+2029, U+202F, U+205F, U+3000, U+FEFF).
\<close>

definition is_white_space :: "16 word \<Rightarrow> bool" where
  "is_white_space c \<longleftrightarrow>
     c \<in> {0x9, 0xA, 0xB, 0xC, 0xD, 0x20, 0xA0, 0x1680, 0x2028, 0x2029, 0x202F, 0x205F,
          0x3000, 0xFEFF}
     \<or> (0x2000 \<le> c \<and> c \<le> 0x200A)"

definition trimStart :: "jsstring \<Rightarrow> jsstring" where
  "trimStart s = dropWhile is_white_space s"

definition trimEnd :: "jsstring \<Rightarrow> jsstring" where
  "trimEnd s = rev (dropWhile is_white_space (rev s))"

definition trim :: "jsstring \<Rightarrow> jsstring" where
  "trim s = trimEnd (trimStart s)"

text \<open>
  The numbers of the host language are doubles. Those that \<^verbatim>\<open>parseInt\<close> can return are the
  doubles that are integers (\<open>Finite n\<close>, for an \<open>n\<close> that a double holds exactly), minus
  zero and the two infinities; NaN is kept apart, as the absence of a number.
\<close>

datatype number = Finite int | NegZero | PosInfinity | NegInfinity

fun bit_length :: "nat \<Rightarrow> nat" where
  "bit_length a = (if a = 0 then 0 else Suc (bit_length (a div 2)))"

declare bit_length.simps [simp del]

text \<open>
  The Number value of a non-zero integer: the nearest double, ties going to the even
  significand of 53 bits, and an infinity from \<open>2 ^ 1024\<close> on. Up to \<open>2 ^ 53\<close> in magnitude
  every integer is its own Number value. (For more than 20 significant digits the
  standard lets \<^verbatim>\<open>parseInt\<close> round a truncated numeral instead; engines round the exact
  value, as here.)
\<close>

definition Number_value :: "int \<Rightarrow> number" where
  "Number_value x =
     (let a = nat \<bar>x\<bar>;
          e = bit_length a - 53;
          q = a div 2 ^ e;
          r = a mod 2 ^ e;
          q' = (if 2 ^ e < 2 * r \<or> (2 * r = 2 ^ e \<and> odd q) then q + 1 else q);
          m = q' * 2 ^ e
      in if 2 ^ 1024 \<le> m then (if x < 0 then NegInfinity else PosInfinity)
         else Finite (if x < 0 then - int m else int m))"

text \<open>
  The values a field of the configuration object holds: a number or a string. The empty
  sentinel of a numeric field is the empty string itself (\<^verbatim>\<open>size: number | ""\<close>).
\<close>

datatype jsval = JNum number | JStr jsstring

definition is_digit :: "16 word \<Rightarrow> bool" where
  "is_digit c \<longleftrightarrow> 0x30 \<le> c \<and> c \<le> 0x39"

definition digit_val :: "16 word \<Rightarrow> int" where
  "digit_val c = uint c - 48"

definition mathInt :: "jsstring \<Rightarrow> int" where
  "mathInt Z = foldl (\<lambda>a c. 10 * a + digit_val c) 0 Z"

text \<open>
  \<^verbatim>\<open>parseInt(value, 10)\<close>: leading white space is skipped, one sign is read, then the
  longest run of decimal digits; what follows the digits is ignored. No digit at that
  place gives NaN, which is \<open>None\<close> here, so that \<^verbatim>\<open>!isNaN(num)\<close> is \<open>num \<noteq> None\<close>. A run
  of zeros gives zero with the sign read; any other run gives the Number value of the
  signed integer, which is an infinity for a long enough run.
\<close>

definition parseInt :: "jsstring \<Rightarrow> number option" where
  "parseInt string =
     (let S = trimStart string;
          sign = (case S of c # _ \<Rightarrow> if c = 0x2D then - 1 else 1 | [] \<Rightarrow> (1::int));
          S' = (case S of c # cs \<Rightarrow> if c = 0x2B \<or> c = 0x2D then cs else S | [] \<Rightarrow> S);
          Z = takeWhile is_digit S'
      in if Z = [] then None
         else if mathInt Z = 0 then Some (if sign = - 1 then NegZero else Finite 0)
         else Some (Number_value (sign * mathInt Z)))"


section \<open>Data model\<close>

text \<open>
  \<^verbatim>\<open>interface QRConfig\<close> (lines 6-12). The handler writes to the object under a computed
  key (\<^verbatim>\<open>[name]: value\<close>), so the configuration is a map from property names to values.
\<close>

type_synonym QRConfig = "jsstring \<rightharpoonup> jsval"

text \<open>
  A result handle stands for the object URL that \<^verbatim>\<open>URL.createObjectURL\<close> returns; the
  browser never returns the same URL twice, so handles are numbered in creation order.
\<close>

type_synonym handle = nat

text \<open>\<^verbatim>\<open>interface AppStatus\<close> (lines 14-18).\<close>

record AppStatus =
  loading :: bool
  qrUrl :: "handle option"
  error :: "jsstring option"

text \<open>
  \<^verbatim>\<open>JSON.stringify(config)\<close> is kept as the JSON object it denotes, with one member for
  each property of the configuration: a string for a string, a number for a finite
  number (minus zero is written \<^verbatim>\<open>0\<close>), and \<^verbatim>\<open>null\<close> for an infinity.
\<close>

datatype json_value = JSON_number int | JSON_string jsstring | JSON_null

datatype json = JSON_object "jsstring \<rightharpoonup> json_value"

fun SerializeJSONProperty :: "jsval \<Rightarrow> json_value" where
  "SerializeJSONProperty (JStr s) = JSON_string s"
| "SerializeJSONProperty (JNum (Finite n)) = JSON_number n"
| "SerializeJSONProperty (JNum NegZero) = JSON_number 0"
| "SerializeJSONProperty (JNum PosInfinity) = JSON_null"
| "SerializeJSONProperty (JNum NegInfinity) = JSON_null"

definition JSON_stringify :: "QRConfig \<Rightarrow> json" where
  "JSON_stringify c = JSON_object (\<lambda>k. map_option SerializeJSONProperty (c k))"

fun property :: "json \<Rightarrow> jsstring \<Rightarrow> json_value option" where
  "property (JSON_object b) k = b k"

text \<open>
  The argument of \<^verbatim>\<open>fetch\<close> (lines 77-81); \<open>http_method\<close> is its \<^verbatim>\<open>method\<close> option.
\<close>

record request =
  url :: jsstring
  http_method :: jsstring
  headers :: "(jsstring \<times> jsstring) list"
  body :: json

text \<open>Everything the component does to its surroundings, in program order.\<close>

datatype effect =
    SetConfig QRConfig
  | SetStatus AppStatus
  | Fetch request
  | CreateObjectURL handle
  | RevokeObjectURL handle

text \<open>
  The component and its environment: the two pieces of React state, whether the
  component is mounted, the number of requests awaiting their response, the next unused
  handle, and the effects so far.
\<close>

record app =
  config :: QRConfig
  status :: AppStatus
  mounted :: bool
  in_flight :: nat
  fresh :: handle
  trace :: "effect list"

text \<open>Lines 22-34.\<close>

definition App_init :: app where
  "App_init =
     \<lparr> config = [lit ''text'' \<mapsto> JStr (lit ''https://example.com''),
                 lit ''size'' \<mapsto> JNum (Finite 300),
                 lit ''color'' \<mapsto> JStr (lit ''#000000''),
                 lit ''background'' \<mapsto> JStr (lit ''#ffffff''),
                 lit ''margin'' \<mapsto> JNum (Finite 4)],
       status = \<lparr> loading = False, qrUrl = None, error = None \<rparr>,
       mounted = True, in_flight = 0, fresh = 0, trace = [] \<rparr>"


section \<open>Operations\<close>

definition emit :: "effect \<Rightarrow> app \<Rightarrow> app" where
  "emit e s = s\<lparr>trace := trace s @ [e]\<rparr>"

text \<open>React drops a state update of a component that is no longer mounted.\<close>

definition setConfig :: "(QRConfig \<Rightarrow> QRConfig) \<Rightarrow> app \<Rightarrow> app" where
  "setConfig f s =
     (if mounted s then let c = f (config s) in emit (SetConfig c) (s\<lparr>config := c\<rparr>)
      else s)"

definition setStatus :: "(AppStatus \<Rightarrow> AppStatus) \<Rightarrow> app \<Rightarrow> app" where
  "setStatus f s =
     (if mounted s then let st = f (status s) in emit (SetStatus st) (s\<lparr>status := st\<rparr>)
      else s)"

text \<open>
  The cleanup function of the effect (lines 40-42), closed over the \<^verbatim>\<open>status.qrUrl\<close> of
  the render that registered it.
\<close>

definition cleanup :: "handle option \<Rightarrow> app \<Rightarrow> app" where
  "cleanup u s = (case u of Some h \<Rightarrow> emit (RevokeObjectURL h) s | None \<Rightarrow> s)"

text \<open>
  The render after a handler has run: the effect depends on \<^verbatim>\<open>[status.qrUrl]\<close>
  (line 43), so the previous cleanup runs exactly when that value has changed.
\<close>

definition commit :: "app \<Rightarrow> app \<Rightarrow> app" where
  "commit old s =
     (if qrUrl (status s) \<noteq> qrUrl (status old) then cleanup (qrUrl (status old)) s
      else s)"

text \<open>Lines 46-62; the three arguments are \<^verbatim>\<open>e.target.name\<close>, \<^verbatim>\<open>value\<close> and \<^verbatim>\<open>type\<close>.\<close>

definition handleInputChange :: "jsstring \<Rightarrow> jsstring \<Rightarrow> jsstring \<Rightarrow> app \<Rightarrow> app" where
  "handleInputChange name val type s =
     (if type = lit ''number'' then
        if val = [] then setConfig (\<lambda>prev. prev(name \<mapsto> JStr [])) s
        else (case parseInt val of
                Some num \<Rightarrow> setConfig (\<lambda>prev. prev(name \<mapsto> JNum num)) s
              | None \<Rightarrow> s)
      else setConfig (\<lambda>prev. prev(name \<mapsto> JStr val)) s)"

definition fetch :: "request \<Rightarrow> app \<Rightarrow> app" where
  "fetch r s = emit (Fetch r) (s\<lparr>in_flight := Suc (in_flight s)\<rparr>)"

datatype js_error = TypeError

text \<open>
  Lines 65-81: \<^verbatim>\<open>generateQRCode\<close> up to the \<^verbatim>\<open>await\<close>. Reading \<^verbatim>\<open>config.text.trim()\<close>
  throws when \<^verbatim>\<open>config.text\<close> is not a string.
\<close>

definition generateQRCode :: "app \<Rightarrow> js_error + app" where
  "generateQRCode s =
     (case config s (lit ''text'') of
        Some (JStr text) \<Rightarrow>
          if trim text = [] then
            Inr (setStatus (\<lambda>prev. prev\<lparr>error := Some (lit ''Please enter some content first.'')\<rparr>) s)
          else
            Inr (fetch \<lparr> url = lit ''/api/qrcode'', http_method = lit ''POST'',
                         headers = [(lit ''Content-Type'', lit ''application/json'')],
                         body = JSON_stringify (config s) \<rparr>
                   (setStatus (\<lambda>_. \<lparr> loading = True, qrUrl = None, error = None \<rparr>) s))
      | _ \<Rightarrow> Inl TypeError)"

text \<open>
  What the awaited calls deliver: \<^verbatim>\<open>fetch\<close> rejects with a thrown value, or it resolves
  with a response of some HTTP status, whose \<^verbatim>\<open>blob()\<close> resolves (\<open>None\<close>) or rejects.
\<close>

datatype thrown = Error jsstring | NonError

datatype outcome = Responded nat "thrown option" | Rejected thrown

definition response_ok :: "nat \<Rightarrow> bool" where
  "response_ok code \<longleftrightarrow> 200 \<le> code \<and> code \<le> 299"

text \<open>Lines 91-97.\<close>

definition catch_clause :: "thrown \<Rightarrow> app \<Rightarrow> app" where
  "catch_clause err s =
     setStatus (\<lambda>_. \<lparr> loading = False, qrUrl = None,
                      error = Some (case err of Error message \<Rightarrow> message
                                    | NonError \<Rightarrow> lit ''Something went wrong.'') \<rparr>) s"

definition createObjectURL :: "app \<Rightarrow> handle \<times> app" where
  "createObjectURL s = (fresh s, emit (CreateObjectURL (fresh s)) (s\<lparr>fresh := Suc (fresh s)\<rparr>))"

text \<open>Lines 83-97: \<^verbatim>\<open>generateQRCode\<close> from the \<^verbatim>\<open>await\<close> on.\<close>

definition resume :: "outcome \<Rightarrow> app \<Rightarrow> app" where
  "resume out s0 =
     (let s = s0\<lparr>in_flight := in_flight s0 - 1\<rparr> in
      case out of
        Rejected err \<Rightarrow> catch_clause err s
      | Responded code b \<Rightarrow>
          if \<not> response_ok code then
            catch_clause (Error (lit ''Server error. Is the Python backend running?'')) s
          else (case b of
                  Some err \<Rightarrow> catch_clause err s
                | None \<Rightarrow>
                    (let (u, s') = createObjectURL s
                     in setStatus (\<lambda>_. \<lparr> loading = False, qrUrl = Some u, error = None \<rparr>) s')))"


section \<open>The component as a transition system\<close>

text \<open>The five controls that carry \<^verbatim>\<open>onChange={handleInputChange}\<close> (lines 113-140).\<close>

datatype control = Content | Size | Margin | Foreground | Background

fun target_name :: "control \<Rightarrow> jsstring" where
  "target_name Content = lit ''text''"
| "target_name Size = lit ''size''"
| "target_name Margin = lit ''margin''"
| "target_name Foreground = lit ''color''"
| "target_name Background = lit ''background''"

fun target_type :: "control \<Rightarrow> jsstring" where
  "target_type Content = lit ''textarea''"
| "target_type Size = lit ''number''"
| "target_type Margin = lit ''number''"
| "target_type Foreground = lit ''color''"
| "target_type Background = lit ''color''"

datatype event = Change control jsstring | Submit | Settle outcome | Unmount

text \<open>
  One event, run to completion; \<open>None\<close> when the event cannot happen in the state. The
  form is submitted through its button, which is disabled while \<^verbatim>\<open>status.loading\<close>
  (line 145). An exception thrown by the submit handler leaves the state as it was. A
  response can arrive after the component was unmounted.
\<close>

fun step :: "event \<Rightarrow> app \<Rightarrow> app option" where
  "step (Change c v) s =
     (if mounted s then Some (commit s (handleInputChange (target_name c) v (target_type c) s))
      else None)"
| "step Submit s =
     (if mounted s \<and> \<not> loading (status s) then
        (case generateQRCode s of Inr s' \<Rightarrow> Some (commit s s') | Inl _ \<Rightarrow> Some s)
      else None)"
| "step (Settle out) s =
     (if 0 < in_flight s then Some (commit s (resume out s)) else None)"
| "step Unmount s =
     (if mounted s then Some ((cleanup (qrUrl (status s)) s)\<lparr>mounted := False\<rparr>) else None)"

fun run :: "event list \<Rightarrow> app \<Rightarrow> app option" where
  "run [] s = Some s"
| "run (e # es) s = (case step e s of None \<Rightarrow> None | Some s' \<Rightarrow> run es s')"

text \<open>Projections of the trace.\<close>

definition fetches :: "effect list \<Rightarrow> request list" where
  "fetches t = concat (map (\<lambda>e. case e of Fetch r \<Rightarrow> [r] | _ \<Rightarrow> []) t)"

definition revocations :: "handle \<Rightarrow> effect list \<Rightarrow> nat" where
  "revocations h t =
     length (filter (\<lambda>e. case e of RevokeObjectURL k \<Rightarrow> k = h | _ \<Rightarrow> False) t)"

definition creations :: "effect list \<Rightarrow> handle list" where
  "creations t = concat (map (\<lambda>e. case e of CreateObjectURL h \<Rightarrow> [h] | _ \<Rightarrow> []) t)"


section \<open>Reference notions for the properties\<close>




text \<open>States used to exercise the theorems.\<close>

definition blank_form :: app where
  "blank_form = App_init\<lparr>config := (config App_init)(lit ''text'' \<mapsto> JStr (lit ''  ''))\<rparr>"

definition pending_form :: app where
  "pending_form = (case generateQRCode App_init of Inr s \<Rightarrow> s | Inl _ \<Rightarrow> App_init)"

definition shown_form :: app where
  "shown_form = resume (Responded 200 None) pending_form"

definition shown_blank_form :: app where
  "shown_blank_form = handleInputChange (lit ''text'') (lit ''  '') (lit ''textarea'') shown_form"

text \<open>The shape of the configuration and of a request, as the HTTP contract gives it.\<close>

definition is_string :: "jsval option \<Rightarrow> bool" where
  "is_string v = (case v of Some (JStr _) \<Rightarrow> True | _ \<Rightarrow> False)"

definition is_number_or_empty :: "jsval option \<Rightarrow> bool" where
  "is_number_or_empty v =
     (case v of Some (JNum _) \<Rightarrow> True | Some (JStr s) \<Rightarrow> s = [] | None \<Rightarrow> False)"

definition config_shape :: "QRConfig \<Rightarrow> bool" where
  "config_shape c \<longleftrightarrow>
     dom c = {lit ''text'', lit ''size'', lit ''color'', lit ''background'', lit ''margin''}
     \<and> is_string (c (lit ''text''))
     \<and> is_number_or_empty (c (lit ''size''))
     \<and> is_string (c (lit ''color''))
     \<and> is_string (c (lit ''background''))
     \<and> is_number_or_empty (c (lit ''margin''))"

definition is_json_string :: "json_value option \<Rightarrow> bool" where
  "is_json_string v = (case v of Some (JSON_string _) \<Rightarrow> True | _ \<Rightarrow> False)"

definition is_json_integer_or_empty_or_null :: "json_value option \<Rightarrow> bool" where
  "is_json_integer_or_empty_or_null v =
     (case v of Some (JSON_number _) \<Rightarrow> True | Some (JSON_string s) \<Rightarrow> s = []
      | Some JSON_null \<Rightarrow> True | None \<Rightarrow> False)"

definition body_shape :: "(jsstring \<rightharpoonup> json_value) \<Rightarrow> bool" where
  "body_shape b \<longleftrightarrow>
     dom b = {lit ''text'', lit ''size'', lit ''color'', lit ''background'', lit ''margin''}
     \<and> is_json_string (b (lit ''text''))
     \<and> is_json_integer_or_empty_or_null (b (lit ''size''))
     \<and> is_json_string (b (lit ''color''))
     \<and> is_json_string (b (lit ''background''))
     \<and> is_json_integer_or_empty_or_null (b (lit ''margin''))"

definition request_shape :: "request \<Rightarrow> bool" where
  "request_shape r \<longleftrightarrow>
     url r = lit ''/api/qrcode''
     \<and> http_method r = lit ''POST''
     \<and> headers r = [(lit ''Content-Type'', lit ''application/json'')]
     \<and> (case body r of JSON_object b \<Rightarrow> body_shape b)"

definition requests_inv :: "app \<Rightarrow> bool" where
  "requests_inv s \<longleftrightarrow> config_shape (config s) \<and> (\<forall>r\<in>set (fetches (trace s)). request_shape r)"

text \<open>Invariants of the transition system.\<close>

definition flight_inv :: "app \<Rightarrow> bool" where
  "flight_inv s \<longleftrightarrow> in_flight s \<le> (if loading (status s) then 1 else 0)"

definition handles_inv :: "app \<Rightarrow> bool" where
  "handles_inv s \<longleftrightarrow>
     (\<forall>h. h \<in> set (creations (trace s)) \<longleftrightarrow> h < fresh s)
     \<and> (mounted s \<longrightarrow>
          (\<forall>h. qrUrl (status s) = Some h \<longrightarrow> h < fresh s)
          \<and> (\<forall>h. revocations h (trace s)
                 = (if h < fresh s \<and> qrUrl (status s) \<noteq> Some h then 1 else 0)))
     \<and> (\<not> mounted s \<longrightarrow> (\<forall>h. revocations h (trace s) \<le> (if h < fresh s then 1 else 0)))"

text \<open>Two successful submits in a row, and the teardown after them.\<close>

definition demo_events :: "event list" where
  "demo_events = [Submit, Settle (Responded 200 None), Submit, Settle (Responded 200 None)]"

definition replaced_form :: app where
  "replaced_form = (case run demo_events App_init of Some s \<Rightarrow> s | None \<Rightarrow> App_init)"

definition torn_form :: app where
  "torn_form = (case step Unmount replaced_form of Some s \<Rightarrow> s | None \<Rightarrow> replaced_form)"

text \<open>A numeral of 309 digits typed into the size control, and the submit after it.\<close>

definition huge_digits :: jsstring where
  "huge_digits = lit ''2'' @ replicate 308 0x30"

definition overflow_events :: "event list" where
  "overflow_events = [Change Size huge_digits, Submit]"

definition overflow_form :: app where
  "overflow_form = (case run overflow_events App_init of Some s \<Rightarrow> s | None \<Rightarrow> App_init)"


section \<open>Strings\<close>

lemma trim_Nil_iff: "trim t = [] \<longleftrightarrow> (\<forall>c\<in>set t. is_white_space c)"
proof
  assume "trim t = []"
  then have all: "\<forall>c\<in>set (dropWhile is_white_space t). is_white_space c"
    by (simp add: trim_def trimStart_def trimEnd_def)
  have "dropWhile is_white_space t = []"
  proof (cases "dropWhile is_white_space t")
    case Nil
    then show ?thesis .
  next
    case (Cons c cs)
    then have "\<not> is_white_space c"
      using hd_dropWhile [of is_white_space t] by simp
    with all Cons show ?thesis by simp
  qed
  then show "\<forall>c\<in>set t. is_white_space c"
    by simp
next
  assume "\<forall>c\<in>set t. is_white_space c"
  then have d: "dropWhile is_white_space t = []"
    by simp
  show "trim t = []"
    unfolding trim_def trimStart_def trimEnd_def d by simp
qed

lemma mathInt_snoc: "mathInt (Z @ [c]) = 10 * mathInt Z + digit_val c"
  by (simp add: mathInt_def)



lemma sign_not_space: "\<not> is_white_space 0x2B" "\<not> is_white_space 0x2D"
  by (simp_all add: is_white_space_def)

lemma digit_not_space: "is_digit c \<Longrightarrow> \<not> is_white_space c"
  unfolding is_digit_def is_white_space_def
  by (auto simp: word_le_nat_alt)

lemma digit_not_sign: "is_digit c \<Longrightarrow> c \<noteq> 0x2B \<and> c \<noteq> 0x2D"
  unfolding is_digit_def by (auto simp: word_le_nat_alt)

lemma takeWhile_digits:
  assumes "\<forall>c\<in>set ds. is_digit c" and "rest = [] \<or> \<not> is_digit (hd rest)"
  shows "takeWhile is_digit (ds @ rest) = ds"
proof -
  have "takeWhile is_digit rest = []"
    using assms(2) by (cases rest) auto
  with assms(1) show ?thesis by (simp add: takeWhile_append2)
qed

lemma trimStart_stop:
  assumes "\<forall>c\<in>set ws. is_white_space c" and "x = [] \<or> \<not> is_white_space (hd x)"
  shows "trimStart (ws @ x) = x"
proof -
  have "dropWhile is_white_space x = x"
    using assms(2) by (cases x) auto
  with assms(1) show ?thesis by (simp add: trimStart_def dropWhile_append2)
qed





lemma mathInt_zeros: "mathInt (ds @ replicate k 0x30) = mathInt ds * 10 ^ k"
proof (induction k)
  case 0
  then show ?case by simp
next
  case (Suc k)
  have "ds @ replicate (Suc k) 0x30 = (ds @ replicate k 0x30) @ [0x30]"
    by (simp add: replicate_append_same)
  then have "mathInt (ds @ replicate (Suc k) 0x30)
      = 10 * mathInt (ds @ replicate k 0x30) + digit_val 0x30"
    by (simp only: mathInt_snoc)
  with Suc show ?case by (simp add: digit_val_def)
qed

text \<open>
  What \<open>parseInt\<close> reads: white space, at most one sign, a run of digits, and then
  anything that does not continue the run.
\<close>

lemma parseInt_leading_digits:
  assumes ws: "\<forall>c\<in>set ws. is_white_space c"
    and sg: "sg \<in> {[], [0x2B], [0x2D]}"
    and ds: "ds \<noteq> []" "\<forall>c\<in>set ds. is_digit c"
    and rest: "rest = [] \<or> \<not> is_digit (hd rest)"
  shows "parseInt (ws @ sg @ ds @ rest) =
    Some (if mathInt ds = 0 then (if sg = [0x2D] then NegZero else Finite 0)
          else Number_value ((if sg = [0x2D] then - 1 else 1) * mathInt ds))"
proof -
  obtain d ds' where dd: "ds = d # ds'" using ds(1) by (cases ds) auto
  with ds(2) have d: "is_digit d" by simp
  have tw: "takeWhile is_digit (ds @ rest) = ds"
    using takeWhile_digits [OF ds(2) rest] .
  have ns: "sg @ ds @ rest = [] \<or> \<not> is_white_space (hd (sg @ ds @ rest))"
    using sg dd digit_not_space [OF d] sign_not_space by auto
  have ts: "trimStart (ws @ sg @ ds @ rest) = sg @ ds @ rest"
    by (rule trimStart_stop [OF ws ns])
  from sg consider "sg = []" | "sg = [0x2B]" | "sg = [0x2D]" by auto
  then show ?thesis
  proof cases
    case 1
    have "parseInt (ws @ sg @ ds @ rest) =
        Some (if mathInt ds = 0 then Finite 0 else Number_value (mathInt ds))"
      unfolding parseInt_def ts using 1 tw dd digit_not_sign [OF d] ds(1)
      by (simp add: Let_def)
    with 1 show ?thesis by simp
  next
    case 2
    have "parseInt (ws @ sg @ ds @ rest) =
        Some (if mathInt ds = 0 then Finite 0 else Number_value (mathInt ds))"
      unfolding parseInt_def ts using 2 tw ds(1) by (simp add: Let_def)
    with 2 show ?thesis by simp
  next
    case 3
    have "parseInt (ws @ sg @ ds @ rest) =
        Some (if mathInt ds = 0 then NegZero else Number_value (- mathInt ds))"
      unfolding parseInt_def ts using 3 tw ds(1) by (simp add: Let_def)
    with 3 show ?thesis by simp
  qed
qed






section \<open>Effects and example states\<close>

lemma fetches_append [simp]: "fetches (xs @ ys) = fetches xs @ fetches ys"
  by (simp add: fetches_def)

lemma fetches_simps [simp]:
  "fetches [] = []"
  "fetches (Fetch r # t) = r # fetches t"
  "fetches (SetConfig c # t) = fetches t"
  "fetches (SetStatus st # t) = fetches t"
  "fetches (CreateObjectURL h # t) = fetches t"
  "fetches (RevokeObjectURL h # t) = fetches t"
  by (simp_all add: fetches_def)

lemma revocations_append [simp]:
  "revocations h (xs @ ys) = revocations h xs + revocations h ys"
  by (simp add: revocations_def)

lemma revocations_simps [simp]:
  "revocations h [] = 0"
  "revocations h (Fetch r # t) = revocations h t"
  "revocations h (SetConfig c # t) = revocations h t"
  "revocations h (SetStatus st # t) = revocations h t"
  "revocations h (CreateObjectURL k # t) = revocations h t"
  "revocations h (RevokeObjectURL k # t) = (if k = h then Suc (revocations h t) else revocations h t)"
  by (simp_all add: revocations_def)

lemma creations_append [simp]: "creations (xs @ ys) = creations xs @ creations ys"
  by (simp add: creations_def)

lemma creations_simps [simp]:
  "creations [] = []"
  "creations (Fetch r # t) = creations t"
  "creations (SetConfig c # t) = creations t"
  "creations (SetStatus st # t) = creations t"
  "creations (CreateObjectURL k # t) = k # creations t"
  "creations (RevokeObjectURL k # t) = creations t"
  by (simp_all add: creations_def)

lemma lit_keys:
  "distinct [lit ''text'', lit ''size'', lit ''color'', lit ''background'', lit ''margin'']"
  by (simp add: lit_def)

lemma lit_types: "lit ''textarea'' \<noteq> lit ''number''" "lit ''color'' \<noteq> lit ''number''"
  by (simp_all add: lit_def)

lemma App_init_simps:
  "mounted App_init" "config App_init (lit ''text'') = Some (JStr (lit ''https://example.com''))"
  "config App_init (lit ''size'') = Some (JNum (Finite 300))"
  "status App_init = \<lparr> loading = False, qrUrl = None, error = None \<rparr>"
  "in_flight App_init = 0" "fresh App_init = 0" "trace App_init = []"
  using lit_keys by (simp_all add: App_init_def)

lemma trim_examples:
  "trim (lit ''  '') = []" "trim (lit ''https://example.com'') \<noteq> []"
  by (simp_all add: trim_def trimStart_def trimEnd_def lit_def is_white_space_def)

lemma generateQRCode_blank:
  assumes "mounted s" and "config s (lit ''text'') = Some (JStr text)" and "trim text = []"
  shows "generateQRCode s =
    Inr (s\<lparr>status := (status s)\<lparr>error := Some (lit ''Please enter some content first.'')\<rparr>,
           trace := trace s @
             [SetStatus ((status s)\<lparr>error := Some (lit ''Please enter some content first.'')\<rparr>)]\<rparr>)"
  using assms by (simp add: generateQRCode_def setStatus_def emit_def Let_def)

lemma generateQRCode_valid:
  assumes "mounted s" and "config s (lit ''text'') = Some (JStr text)" and "trim text \<noteq> []"
  shows "generateQRCode s =
    Inr (s\<lparr>status := \<lparr> loading = True, qrUrl = None, error = None \<rparr>,
           in_flight := Suc (in_flight s),
           trace := trace s @
             [SetStatus \<lparr> loading = True, qrUrl = None, error = None \<rparr>,
              Fetch \<lparr> url = lit ''/api/qrcode'', http_method = lit ''POST'',
                      headers = [(lit ''Content-Type'', lit ''application/json'')],
                      body = JSON_stringify (config s) \<rparr>]\<rparr>)"
  using assms by (simp add: generateQRCode_def setStatus_def fetch_def emit_def Let_def)

lemma resume_success:
  assumes "mounted s" and "response_ok code"
  shows "resume (Responded code None) s =
    s\<lparr>status := \<lparr> loading = False, qrUrl = Some (fresh s), error = None \<rparr>,
      in_flight := in_flight s - 1, fresh := Suc (fresh s),
      trace := trace s @ [CreateObjectURL (fresh s),
                 SetStatus \<lparr> loading = False, qrUrl = Some (fresh s), error = None \<rparr>]\<rparr>"
  using assms
  by (simp add: resume_def createObjectURL_def setStatus_def emit_def Let_def)

lemma handleInputChange_verbatim:
  assumes "mounted s" and "type \<noteq> lit ''number''"
  shows "handleInputChange name v type s =
           s\<lparr>config := (config s)(name \<mapsto> JStr v),
             trace := trace s @ [SetConfig ((config s)(name \<mapsto> JStr v))]\<rparr>"
  using assms by (simp add: handleInputChange_def setConfig_def emit_def Let_def)

lemma resume_failure:
  assumes "mounted s"
    and "out = Rejected err \<or> (\<exists>code. out = Responded code (Some err) \<and> response_ok code)
          \<or> (\<exists>code b. out = Responded code b \<and> \<not> response_ok code
                \<and> err = Error (lit ''Server error. Is the Python backend running?''))"
  shows "resume out s =
    s\<lparr>status := \<lparr> loading = False, qrUrl = None,
                   error = Some (case err of Error message \<Rightarrow> message
                                 | NonError \<Rightarrow> lit ''Something went wrong.'') \<rparr>,
      in_flight := in_flight s - 1,
      trace := trace s @
        [SetStatus \<lparr> loading = False, qrUrl = None,
                     error = Some (case err of Error message \<Rightarrow> message
                                   | NonError \<Rightarrow> lit ''Something went wrong.'') \<rparr>]\<rparr>"
  using assms
  by (auto simp: resume_def catch_clause_def setStatus_def emit_def Let_def)

lemma commit_same: "qrUrl (status s') = qrUrl (status s) \<Longrightarrow> commit s s' = s'"
  by (simp add: commit_def)

lemma blank_form_simps:
  "mounted blank_form" "config blank_form (lit ''text'') = Some (JStr (lit ''  ''))"
  by (simp_all add: blank_form_def App_init_simps)

lemma pending_form_simps:
  "mounted pending_form" "in_flight pending_form = 1" "fresh pending_form = 0"
  "status pending_form = \<lparr> loading = True, qrUrl = None, error = None \<rparr>"
  "config pending_form = config App_init"
  unfolding pending_form_def generateQRCode_valid [OF App_init_simps(1,2) trim_examples(2)]
  by (simp_all add: App_init_simps)

lemma shown_form_simps:
  "mounted shown_form" "status shown_form = \<lparr> loading = False, qrUrl = Some 0, error = None \<rparr>"
  "config shown_form = config App_init"
proof -
  have ok: "response_ok 200" by (simp add: response_ok_def)
  show "mounted shown_form"
    "status shown_form = \<lparr> loading = False, qrUrl = Some 0, error = None \<rparr>"
    "config shown_form = config App_init"
    unfolding shown_form_def resume_success [OF pending_form_simps(1) ok]
    by (simp_all add: pending_form_simps)
qed

lemma shown_blank_form_simps:
  "mounted shown_blank_form"
  "config shown_blank_form (lit ''text'') = Some (JStr (lit ''  ''))"
  "status shown_blank_form = \<lparr> loading = False, qrUrl = Some 0, error = None \<rparr>"
  unfolding shown_blank_form_def
    handleInputChange_verbatim [OF shown_form_simps(1) lit_types(1)]
  by (simp_all add: shown_form_simps)

section \<open>Submitting\<close>

text \<open>
  Claim C1. A submit attempt whose text field is empty after trimming, that is, empty or
  made of white space only (\<open>trim_Nil_iff\<close>), issues no network request: the only effect
  is one status update, the list of requests and the number of requests in flight stay
  as they were, and the error field is exactly ``Please enter some content first.''.
\<close>

theorem submit_blank_text:
  assumes "mounted s" and "config s (lit ''text'') = Some (JStr text)" and "trim text = []"
  shows "\<exists>s'. generateQRCode s = Inr s'
           \<and> error (status s') = Some (lit ''Please enter some content first.'')
           \<and> trace s' = trace s @ [SetStatus (status s')]
           \<and> fetches (trace s') = fetches (trace s)
           \<and> in_flight s' = in_flight s"
  using assms by (simp add: generateQRCode_def setStatus_def emit_def Let_def)

theorem submit_blank_text_witness:
  "mounted blank_form \<and> config blank_form (lit ''text'') = Some (JStr (lit ''  ''))
   \<and> trim (lit ''  '') = []
   \<and> (\<exists>s'. generateQRCode blank_form = Inr s'
           \<and> error (status s') = Some (lit ''Please enter some content first.'')
           \<and> trace s' = trace blank_form @ [SetStatus (status s')]
           \<and> fetches (trace s') = fetches (trace blank_form)
           \<and> in_flight s' = in_flight blank_form)"
  using submit_blank_text [OF blank_form_simps trim_examples(1)] blank_form_simps
    trim_examples(1)
  by simp

text \<open>
  Claim C10. A submit attempt that fails validation overwrites only the error field of
  the status: the loading flag and the result handle keep their values, the render that
  follows runs no cleanup, and no handle is released, so a handle from an earlier
  successful attempt survives.
\<close>

theorem failed_validation_frame:
  assumes "mounted s" and "config s (lit ''text'') = Some (JStr text)" and "trim text = []"
  shows "\<exists>s'. generateQRCode s = Inr s'
           \<and> status s' = (status s)\<lparr>error := Some (lit ''Please enter some content first.'')\<rparr>
           \<and> loading (status s') = loading (status s)
           \<and> qrUrl (status s') = qrUrl (status s)
           \<and> commit s s' = s'
           \<and> (\<forall>h. revocations h (trace s') = revocations h (trace s))"
  using assms
  by (simp add: generateQRCode_def setStatus_def emit_def Let_def commit_def)

theorem failed_validation_frame_witness:
  "mounted shown_blank_form
   \<and> config shown_blank_form (lit ''text'') = Some (JStr (lit ''  ''))
   \<and> trim (lit ''  '') = []
   \<and> qrUrl (status shown_blank_form) = Some 0
   \<and> (\<exists>s'. generateQRCode shown_blank_form = Inr s'
           \<and> status s' = (status shown_blank_form)
                \<lparr>error := Some (lit ''Please enter some content first.'')\<rparr>
           \<and> loading (status s') = loading (status shown_blank_form)
           \<and> qrUrl (status s') = qrUrl (status shown_blank_form)
           \<and> commit shown_blank_form s' = s'
           \<and> (\<forall>h. revocations h (trace s') = revocations h (trace shown_blank_form)))"
  using failed_validation_frame [OF shown_blank_form_simps(1,2) trim_examples(1)]
    shown_blank_form_simps trim_examples(1)
  by simp

text \<open>
  Claim C6. A submit attempt that passes validation first sets the status to loading
  with error and result handle cleared, and then issues exactly one request, whose body
  is the current configuration serialized; these are its only two effects, in this order.
\<close>

theorem submit_valid_text:
  assumes "mounted s" and "config s (lit ''text'') = Some (JStr text)" and "trim text \<noteq> []"
  shows "\<exists>s'. generateQRCode s = Inr s'
           \<and> status s' = \<lparr> loading = True, qrUrl = None, error = None \<rparr>
           \<and> trace s' = trace s @
                [SetStatus \<lparr> loading = True, qrUrl = None, error = None \<rparr>,
                 Fetch \<lparr> url = lit ''/api/qrcode'', http_method = lit ''POST'',
                         headers = [(lit ''Content-Type'', lit ''application/json'')],
                         body = JSON_stringify (config s) \<rparr>]
           \<and> length (fetches (trace s')) = Suc (length (fetches (trace s)))
           \<and> in_flight s' = Suc (in_flight s)
           \<and> config s' = config s"
  using assms by (simp add: generateQRCode_def setStatus_def fetch_def emit_def Let_def)

theorem submit_valid_text_witness:
  "mounted App_init
   \<and> config App_init (lit ''text'') = Some (JStr (lit ''https://example.com''))
   \<and> trim (lit ''https://example.com'') \<noteq> []
   \<and> (\<exists>s'. generateQRCode App_init = Inr s'
           \<and> status s' = \<lparr> loading = True, qrUrl = None, error = None \<rparr>
           \<and> trace s' = trace App_init @
                [SetStatus \<lparr> loading = True, qrUrl = None, error = None \<rparr>,
                 Fetch \<lparr> url = lit ''/api/qrcode'', http_method = lit ''POST'',
                         headers = [(lit ''Content-Type'', lit ''application/json'')],
                         body = JSON_stringify (config App_init) \<rparr>]
           \<and> length (fetches (trace s')) = Suc (length (fetches (trace App_init)))
           \<and> in_flight s' = Suc (in_flight App_init)
           \<and> config s' = config App_init)"
  using submit_valid_text [OF App_init_simps(1,2) trim_examples(2)] App_init_simps(1,2)
    trim_examples(2)
  by simp

section \<open>Editing a field\<close>

text \<open>
  Claim C9. An input event on the text, colour or background control stores the raw
  string under that control's name and does nothing else: the resulting state is the
  old one with that one configuration entry replaced and one \<open>SetConfig\<close> effect added,
  so every other entry of the configuration and the request status are unchanged, and
  no request, handle creation or release happens.
\<close>

theorem change_stores_verbatim:
  assumes "mounted s" and "c \<in> {Content, Foreground, Background}"
  shows "\<exists>s'. step (Change c v) s = Some s'
           \<and> s' = s\<lparr>config := (config s)(target_name c \<mapsto> JStr v),
                     trace := trace s @ [SetConfig ((config s)(target_name c \<mapsto> JStr v))]\<rparr>
           \<and> config s' (target_name c) = Some (JStr v)
           \<and> (\<forall>k. k \<noteq> target_name c \<longrightarrow> config s' k = config s k)
           \<and> status s' = status s
           \<and> fetches (trace s') = fetches (trace s)
           \<and> creations (trace s') = creations (trace s)
           \<and> (\<forall>h. revocations h (trace s') = revocations h (trace s))"
proof -
  from assms(2) have "target_type c \<noteq> lit ''number''"
    using lit_types by auto
  from handleInputChange_verbatim [OF assms(1) this] assms(1) show ?thesis
    by (simp add: commit_def)
qed

theorem change_stores_verbatim_witness:
  "mounted shown_form \<and> Foreground \<in> {Content, Foreground, Background}
   \<and> (\<exists>s'. step (Change Foreground (lit ''#ff0000'')) shown_form = Some s'
           \<and> s' = shown_form\<lparr>config := (config shown_form)(target_name Foreground \<mapsto> JStr (lit ''#ff0000'')),
                     trace := trace shown_form @ [SetConfig ((config shown_form)(target_name Foreground \<mapsto> JStr (lit ''#ff0000'')))]\<rparr>
           \<and> config s' (target_name Foreground) = Some (JStr (lit ''#ff0000''))
           \<and> (\<forall>k. k \<noteq> target_name Foreground \<longrightarrow> config s' k = config shown_form k)
           \<and> status s' = status shown_form
           \<and> fetches (trace s') = fetches (trace shown_form)
           \<and> creations (trace s') = creations (trace shown_form)
           \<and> (\<forall>h. revocations h (trace s') = revocations h (trace shown_form)))"
proof -
  have c: "Foreground \<in> {Content, Foreground, Background}" by simp
  from change_stores_verbatim [OF shown_form_simps(1) c, of "lit ''#ff0000''"]
    shown_form_simps(1) c
  show ?thesis by simp
qed

lemma handleInputChange_number:
  assumes "mounted s"
  shows "handleInputChange name [] (lit ''number'') s =
           s\<lparr>config := (config s)(name \<mapsto> JStr []),
             trace := trace s @ [SetConfig ((config s)(name \<mapsto> JStr []))]\<rparr>"
    and "v \<noteq> [] \<Longrightarrow> parseInt v = Some num \<Longrightarrow>
         handleInputChange name v (lit ''number'') s =
           s\<lparr>config := (config s)(name \<mapsto> JNum num),
             trace := trace s @ [SetConfig ((config s)(name \<mapsto> JNum num))]\<rparr>"
    and "v \<noteq> [] \<Longrightarrow> parseInt v = None \<Longrightarrow> handleInputChange name v (lit ''number'') s = s"
  using assms by (simp_all add: handleInputChange_def setConfig_def emit_def Let_def)





section \<open>Completing a request\<close>

text \<open>
  Claim C2. When a request of a mounted component completes, loading is cleared and
  exactly one of result handle and error is set: a response with a 2xx status whose body
  was read sets the handle and clears the error; a response with any other status, a
  rejected \<^verbatim>\<open>fetch\<close> and a body that could not be read set the error and clear the handle.
\<close>

theorem settled_status:
  assumes "mounted s"
  shows "\<not> loading (status (resume out s))
       \<and> (qrUrl (status (resume out s)) = None) \<noteq> (error (status (resume out s)) = None)
       \<and> (response_ok code \<longrightarrow>
            qrUrl (status (resume (Responded code None) s)) = Some (fresh s)
            \<and> error (status (resume (Responded code None) s)) = None)
       \<and> (\<not> response_ok code' \<longrightarrow>
            qrUrl (status (resume (Responded code' b) s)) = None
            \<and> error (status (resume (Responded code' b) s)) \<noteq> None)
       \<and> qrUrl (status (resume (Rejected err) s)) = None
       \<and> error (status (resume (Rejected err) s)) \<noteq> None
       \<and> qrUrl (status (resume (Responded code (Some err)) s)) = None
       \<and> error (status (resume (Responded code (Some err)) s)) \<noteq> None"
  using assms
  by (auto simp: resume_def catch_clause_def setStatus_def createObjectURL_def emit_def Let_def
           split: outcome.splits option.splits)

theorem settled_status_witness:
  "mounted pending_form
   \<and> \<not> loading (status (resume (Rejected NonError) pending_form))
   \<and> (qrUrl (status (resume (Rejected NonError) pending_form)) = None)
        \<noteq> (error (status (resume (Rejected NonError) pending_form)) = None)
   \<and> response_ok 200
   \<and> qrUrl (status (resume (Responded 200 None) pending_form)) = Some (fresh pending_form)
   \<and> error (status (resume (Responded 200 None) pending_form)) = None
   \<and> \<not> response_ok 500
   \<and> qrUrl (status (resume (Responded 500 None) pending_form)) = None
   \<and> error (status (resume (Responded 500 None) pending_form)) \<noteq> None"
proof -
  have ok: "response_ok 200" "\<not> response_ok 500" by (simp_all add: response_ok_def)
  from settled_status [OF pending_form_simps(1), of "Rejected NonError" 200 500 None NonError]
    ok pending_form_simps(1)
  show ?thesis by simp
qed

text \<open>
  Claim C7. A non-2xx response and a thrown exception end in the same kind of status, a
  message and nothing else: the message of the exception, the generic fallback when the
  thrown value is not an \<^verbatim>\<open>Error\<close>, and for a non-2xx response the message of the
  \<^verbatim>\<open>Error\<close> the code throws itself. The state after a non-2xx response is the very state
  after an exception with that message, whatever the status code was.
\<close>

theorem error_message:
  assumes "mounted s" and "\<not> response_ok code"
  shows "status (resume (Responded code b) s) =
             \<lparr> loading = False, qrUrl = None,
               error = Some (lit ''Server error. Is the Python backend running?'') \<rparr>
       \<and> status (resume (Rejected (Error message)) s) =
             \<lparr> loading = False, qrUrl = None, error = Some message \<rparr>
       \<and> status (resume (Rejected NonError) s) =
             \<lparr> loading = False, qrUrl = None, error = Some (lit ''Something went wrong.'') \<rparr>
       \<and> resume (Responded code b) s =
           resume (Rejected (Error (lit ''Server error. Is the Python backend running?''))) s"
  using assms
  by (auto simp: resume_def catch_clause_def setStatus_def createObjectURL_def emit_def Let_def
           split: outcome.splits option.splits)

theorem error_message_witness:
  "mounted pending_form \<and> \<not> response_ok 500
   \<and> status (resume (Responded 500 None) pending_form) =
             \<lparr> loading = False, qrUrl = None,
               error = Some (lit ''Server error. Is the Python backend running?'') \<rparr>
   \<and> status (resume (Rejected (Error (lit ''Failed to fetch''))) pending_form) =
             \<lparr> loading = False, qrUrl = None, error = Some (lit ''Failed to fetch'') \<rparr>
   \<and> status (resume (Rejected NonError) pending_form) =
             \<lparr> loading = False, qrUrl = None, error = Some (lit ''Something went wrong.'') \<rparr>
   \<and> resume (Responded 500 None) pending_form =
           resume (Rejected (Error (lit ''Server error. Is the Python backend running?''))) pending_form"
proof -
  have nok: "\<not> response_ok 500" by (simp add: response_ok_def)
  from error_message [OF pending_form_simps(1) nok, of None "lit ''Failed to fetch''"]
    nok pending_form_simps(1)
  show ?thesis by blast
qed

section \<open>Reachable states\<close>

lemma run_invariant:
  assumes "run evs s = Some s'" and "P s"
    and "\<And>e s s'. P s \<Longrightarrow> step e s = Some s' \<Longrightarrow> P s'"
  shows "P s'"
  using assms(1,2)
proof (induction evs arbitrary: s)
  case Nil
  then show ?case by simp
next
  case (Cons e evs)
  then obtain s1 where s1: "step e s = Some s1" and r: "run evs s1 = Some s'"
    by (auto split: option.splits)
  from assms(3) [OF Cons.prems(2) s1] have "P s1" .
  from Cons.IH [OF r this] show ?case .
qed

lemma step_flight_inv:
  assumes "flight_inv s" and "step e s = Some s'"
  shows "flight_inv s'"
proof (cases e)
  case (Change c v)
  with assms show ?thesis
    by (auto simp: flight_inv_def handleInputChange_def setConfig_def emit_def commit_def
          cleanup_def Let_def split: if_splits option.splits)
next
  case Submit
  with assms show ?thesis
    by (auto simp: flight_inv_def generateQRCode_def setStatus_def fetch_def emit_def commit_def
          cleanup_def Let_def split: if_splits option.splits jsval.splits sum.splits)
next
  case (Settle out)
  with assms show ?thesis
    by (auto simp: flight_inv_def resume_def catch_clause_def createObjectURL_def setStatus_def
          emit_def commit_def cleanup_def Let_def split: if_splits option.splits outcome.splits)
next
  case Unmount
  with assms show ?thesis
    by (auto simp: flight_inv_def emit_def cleanup_def split: if_splits option.splits)
qed

lemma step_no_fetch:
  assumes "step e s = Some s'" and "loading (status s)"
  shows "fetches (trace s') = fetches (trace s)"
proof (cases e)
  case (Change c v)
  with assms show ?thesis
    by (auto simp: handleInputChange_def setConfig_def emit_def commit_def
          cleanup_def Let_def split: if_splits option.splits)
next
  case Submit
  with assms show ?thesis by simp
next
  case (Settle out)
  with assms show ?thesis
    by (auto simp: resume_def catch_clause_def createObjectURL_def setStatus_def
          emit_def commit_def cleanup_def Let_def split: if_splits option.splits outcome.splits)
next
  case Unmount
  with assms show ?thesis
    by (auto simp: emit_def cleanup_def split: if_splits option.splits)
qed

text \<open>
  Claim C5. In every reachable state at most one request is in flight; a request in
  flight means the status is loading; while it is loading the submit event cannot happen,
  the button being disabled; and so no event issues a request while one is in flight.
\<close>

theorem single_flight:
  assumes "run evs App_init = Some s"
  shows "in_flight s \<le> 1
       \<and> (in_flight s = 1 \<longrightarrow> loading (status s))
       \<and> (loading (status s) \<longrightarrow> step Submit s = None)
       \<and> (0 < in_flight s \<longrightarrow>
            (\<forall>e s'. step e s = Some s' \<longrightarrow> fetches (trace s') = fetches (trace s)))"
proof -
  have init: "flight_inv App_init" by (simp add: flight_inv_def App_init_simps)
  have inv: "flight_inv s"
    by (rule run_invariant [where P = flight_inv, OF assms init]) (rule step_flight_inv)
  then have l: "0 < in_flight s \<Longrightarrow> loading (status s)"
    by (auto simp: flight_inv_def split: if_splits)
  from inv have "in_flight s \<le> 1"
    by (auto simp: flight_inv_def split: if_splits)
  moreover from l have "in_flight s = 1 \<longrightarrow> loading (status s)" by simp
  moreover have "loading (status s) \<longrightarrow> step Submit s = None" by simp
  moreover from l step_no_fetch
  have "0 < in_flight s \<longrightarrow>
            (\<forall>e s'. step e s = Some s' \<longrightarrow> fetches (trace s') = fetches (trace s))"
    by blast
  ultimately show ?thesis by blast
qed


theorem single_flight_witness:
  "run [Submit] App_init = Some pending_form
   \<and> in_flight pending_form = 1
   \<and> loading (status pending_form)
   \<and> step Submit pending_form = None
   \<and> (\<exists>s'. step (Change Content (lit ''abc'')) pending_form = Some s'
          \<and> fetches (trace s') = fetches (trace pending_form))"
proof -
  have r: "run [Submit] App_init = Some pending_form"
    using generateQRCode_valid [OF App_init_simps(1,2) trim_examples(2)]
    by (simp add: pending_form_def App_init_simps commit_def)
  obtain s' where st: "step (Change Content (lit ''abc'')) pending_form = Some s'"
    by (simp add: pending_form_simps)
  note t = single_flight [OF r]
  from t pending_form_simps(2) have "\<forall>e s'. step e pending_form = Some s' \<longrightarrow>
      fetches (trace s') = fetches (trace pending_form)"
    by simp
  with st have "fetches (trace s') = fetches (trace pending_form)" by blast
  with st have "\<exists>s'. step (Change Content (lit ''abc'')) pending_form = Some s'
      \<and> fetches (trace s') = fetches (trace pending_form)" by blast
  moreover from t have "step Submit pending_form = None"
    by (simp add: pending_form_simps)
  ultimately show ?thesis using r pending_form_simps by simp
qed

lemma step_handles:
  assumes "step e s = Some s'"
  shows "(mounted s' \<longrightarrow> mounted s)
       \<and> (creations (trace s') = creations (trace s) \<and> fresh s' = fresh s
           \<or> creations (trace s') = creations (trace s) @ [fresh s] \<and> fresh s' = Suc (fresh s)
              \<and> (mounted s \<longrightarrow> qrUrl (status s') = Some (fresh s)))
       \<and> (mounted s' \<longrightarrow> qrUrl (status s') = qrUrl (status s) \<or> qrUrl (status s') = None
              \<or> qrUrl (status s') = Some (fresh s) \<and> fresh s' = Suc (fresh s))
       \<and> (\<not> mounted s \<longrightarrow> status s' = status s)
       \<and> (\<forall>h. revocations h (trace s') = revocations h (trace s) +
              (if mounted s \<and> qrUrl (status s) = Some h
                  \<and> (\<not> mounted s' \<or> qrUrl (status s') \<noteq> Some h) then 1 else 0))"
proof (cases e)
  case (Change c v)
  with assms show ?thesis
    by (auto simp: handleInputChange_def setConfig_def emit_def commit_def
          cleanup_def Let_def split: if_splits option.splits)
next
  case Submit
  with assms show ?thesis
    by (auto simp: generateQRCode_def setStatus_def fetch_def emit_def commit_def
          cleanup_def Let_def split: if_splits option.splits jsval.splits sum.splits)
next
  case (Settle out)
  with assms show ?thesis
    by (auto simp: resume_def catch_clause_def createObjectURL_def setStatus_def
          emit_def commit_def cleanup_def Let_def
          split: if_splits option.splits outcome.splits)
next
  case Unmount
  with assms show ?thesis
    by (auto simp: emit_def cleanup_def split: if_splits option.splits)
qed


lemma step_handles_inv:
  assumes inv: "handles_inv s" and st: "step e s = Some s'"
  shows "handles_inv s'"
proof -
  note h = step_handles [OF st]
  from h have m: "mounted s' \<Longrightarrow> mounted s" by blast
  from h have cr: "creations (trace s') = creations (trace s) \<and> fresh s' = fresh s
           \<or> creations (trace s') = creations (trace s) @ [fresh s] \<and> fresh s' = Suc (fresh s)
              \<and> (mounted s \<longrightarrow> qrUrl (status s') = Some (fresh s))" by blast
  then have fr: "fresh s' = fresh s
           \<or> fresh s' = Suc (fresh s) \<and> (mounted s \<longrightarrow> qrUrl (status s') = Some (fresh s))"
    by blast
  from h have q: "mounted s' \<Longrightarrow> qrUrl (status s') = qrUrl (status s) \<or> qrUrl (status s') = None
              \<or> qrUrl (status s') = Some (fresh s) \<and> fresh s' = Suc (fresh s)" by blast
  from h have rv: "\<And>h. revocations h (trace s') = revocations h (trace s) +
              (if mounted s \<and> qrUrl (status s) = Some h
                  \<and> (\<not> mounted s' \<or> qrUrl (status s') \<noteq> Some h) then 1 else 0)" by blast
  from inv have c0: "\<And>h. h \<in> set (creations (trace s)) \<longleftrightarrow> h < fresh s"
    by (simp add: handles_inv_def)
  from inv have q0: "\<And>h. mounted s \<Longrightarrow> qrUrl (status s) = Some h \<Longrightarrow> h < fresh s"
    by (simp add: handles_inv_def)
  from inv have r0: "\<And>h. mounted s \<Longrightarrow> revocations h (trace s)
                 = (if h < fresh s \<and> qrUrl (status s) \<noteq> Some h then 1 else 0)"
    by (simp add: handles_inv_def)
  from inv have u0: "\<And>h. \<not> mounted s \<Longrightarrow>
      revocations h (trace s) \<le> (if h < fresh s then 1 else 0)"
    by (simp add: handles_inv_def)
  have c1: "h \<in> set (creations (trace s')) \<longleftrightarrow> h < fresh s'" for h
    using cr
  proof (elim disjE conjE)
    assume "creations (trace s') = creations (trace s)" "fresh s' = fresh s"
    then show ?thesis by (simp add: c0)
  next
    assume "creations (trace s') = creations (trace s) @ [fresh s]" "fresh s' = Suc (fresh s)"
    then show ?thesis by (simp add: c0 less_Suc_eq disj_commute)
  qed
  have q1: "h < fresh s'" if ms: "mounted s'" and e: "qrUrl (status s') = Some h" for h
  proof -
    from q [OF ms] e consider "qrUrl (status s) = Some h"
      | "h = fresh s" "fresh s' = Suc (fresh s)" by auto
    then show ?thesis
    proof cases
      case 1
      from q0 [OF m [OF ms] 1] fr show ?thesis by auto
    next
      case 2
      then show ?thesis by simp
    qed
  qed
  have r1: "revocations h (trace s')
                 = (if h < fresh s' \<and> qrUrl (status s') \<noteq> Some h then 1 else 0)"
    if ms: "mounted s'" for h
  proof -
    from ms m have ms0: "mounted s" by blast
    show ?thesis
    proof (cases "qrUrl (status s) = Some h")
      case True
      from q0 [OF ms0 True] have lt: "h < fresh s" .
      with fr have lt': "h < fresh s'" by auto
      from True lt r0 [OF ms0, of h] have "revocations h (trace s) = 0" by simp
      with rv [of h] True ms ms0 lt' show ?thesis by simp
    next
      case False
      with rv [of h] have same: "revocations h (trace s') = revocations h (trace s)" by simp
      from fr show ?thesis
      proof (elim disjE conjE)
        assume f: "fresh s' = fresh s"
        with q [OF ms] False have "qrUrl (status s') \<noteq> Some h" by auto
        with same r0 [OF ms0, of h] False f show ?thesis by simp
      next
        assume f: "fresh s' = Suc (fresh s)" and "mounted s \<longrightarrow> qrUrl (status s') = Some (fresh s)"
        with ms0 have "qrUrl (status s') = Some (fresh s)" by simp
        with same r0 [OF ms0, of h] False f show ?thesis by (auto simp: less_Suc_eq)
      qed
    qed
  qed
  have u1: "revocations h (trace s') \<le> (if h < fresh s' then 1 else 0)"
    if nm: "\<not> mounted s'" for h
  proof (cases "mounted s")
    case True
    from fr have le: "fresh s \<le> fresh s'" by auto
    show ?thesis
    proof (cases "qrUrl (status s) = Some h")
      case T: True
      from q0 [OF True T] le have "h < fresh s'" by simp
      moreover from T r0 [OF True, of h] have "revocations h (trace s) = 0" by simp
      ultimately show ?thesis using rv [of h] by simp
    next
      case F: False
      with rv [of h] have "revocations h (trace s') = revocations h (trace s)" by simp
      with r0 [OF True, of h] F le show ?thesis by auto
    qed
  next
    case False
    from fr have le: "fresh s \<le> fresh s'" by auto
    from False rv [of h] have "revocations h (trace s') = revocations h (trace s)" by simp
    with u0 [OF False, of h] le show ?thesis by (auto split: if_splits)
  qed
  show ?thesis
    unfolding handles_inv_def using c1 q1 r1 u1 by blast
qed

lemmas eval_defs =
  App_init_def generateQRCode_def setStatus_def setConfig_def fetch_def emit_def
  handleInputChange_def resume_def catch_clause_def createObjectURL_def commit_def cleanup_def
  response_ok_def trim_def trimStart_def trimEnd_def is_white_space_def lit_def Let_def
  JSON_stringify_def

lemma run_demo: "run demo_events App_init = Some replaced_form"
proof -
  have "run demo_events App_init \<noteq> None"
    by (simp add: demo_events_def eval_defs)
  then show ?thesis by (auto simp: replaced_form_def)
qed

lemma replaced_form_simps:
  "mounted replaced_form" "qrUrl (status replaced_form) = Some 1"
  "creations (trace replaced_form) = [0, 1]" "in_flight replaced_form = 0"
  "\<not> loading (status replaced_form)"
  by (simp_all add: replaced_form_def demo_events_def eval_defs)

lemma run_torn: "run [Unmount] replaced_form = Some torn_form"
  by (simp add: torn_form_def replaced_form_simps)

lemma step_unmounted:
  assumes "\<not> mounted s" and "step e s = Some s'"
  shows "\<not> mounted s' \<and> (\<forall>h. revocations h (trace s') = revocations h (trace s))"
  using step_handles [OF assms(2)] assms(1) by simp

lemma run_unmounted:
  assumes "run evs s = Some s'" and "\<not> mounted s"
  shows "\<forall>h. revocations h (trace s') = revocations h (trace s)"
proof -
  have "\<not> mounted s' \<and> (\<forall>h. revocations h (trace s') = revocations h (trace s))"
  proof (rule run_invariant
      [where P = "\<lambda>x. \<not> mounted x \<and> (\<forall>h. revocations h (trace x) = revocations h (trace s))",
        OF assms(1)])
    show "\<not> mounted s \<and> (\<forall>h. revocations h (trace s) = revocations h (trace s))"
      using assms(2) by simp
  next
    fix e x x'
    assume "\<not> mounted x \<and> (\<forall>h. revocations h (trace x) = revocations h (trace s))"
      and "step e x = Some x'"
    then show "\<not> mounted x' \<and> (\<forall>h. revocations h (trace x') = revocations h (trace s))"
      using step_unmounted [of x e x'] by simp
  qed
  then show ?thesis by blast
qed

lemma handles_inv_init: "handles_inv App_init"
  by (simp add: handles_inv_def App_init_simps)

text \<open>
  Claim C3. In every reachable state no handle has been released twice, and only
  created handles are released. While the component is mounted, every handle created so
  far has been released exactly once, except the one the status holds, which is
  unreleased: a handle is released when it leaves the status. After the component is torn
  down, whatever happens next, every handle created before the teardown has been released
  exactly once. (A response that arrives after the teardown still creates a handle, which
  is then neither stored nor released; it was not created before the teardown.)
\<close>

theorem handle_released_once:
  assumes "run evs App_init = Some s"
  shows "(\<forall>h. revocations h (trace s) \<le> 1)
       \<and> (\<forall>h. 0 < revocations h (trace s) \<longrightarrow> h \<in> set (creations (trace s)))
       \<and> (mounted s \<longrightarrow>
            (\<forall>h\<in>set (creations (trace s)).
               revocations h (trace s) = (if qrUrl (status s) = Some h then 0 else 1)))
       \<and> (mounted s \<longrightarrow>
            (\<forall>evs' s'. run (Unmount # evs') s = Some s' \<longrightarrow>
               (\<forall>h\<in>set (creations (trace s)). revocations h (trace s') = 1)))"
proof -
  have inv: "handles_inv s"
    by (rule run_invariant [where P = handles_inv, OF assms handles_inv_init])
      (rule step_handles_inv)
  then have c: "\<And>h. h \<in> set (creations (trace s)) \<longleftrightarrow> h < fresh s"
    by (simp add: handles_inv_def)
  from inv have q: "\<And>h. mounted s \<Longrightarrow> qrUrl (status s) = Some h \<Longrightarrow> h < fresh s"
    by (simp add: handles_inv_def)
  from inv have r: "\<And>h. mounted s \<Longrightarrow> revocations h (trace s)
                 = (if h < fresh s \<and> qrUrl (status s) \<noteq> Some h then 1 else 0)"
    by (simp add: handles_inv_def)
  from inv have u: "\<And>h. \<not> mounted s \<Longrightarrow>
      revocations h (trace s) \<le> (if h < fresh s then 1 else 0)"
    by (simp add: handles_inv_def)
  have once: "revocations h (trace s) \<le> 1" for h
    using r [of h] u [of h] by (cases "mounted s") (auto split: if_splits)
  have only: "0 < revocations h (trace s) \<Longrightarrow> h \<in> set (creations (trace s))" for h
    using r [of h] u [of h] c [of h] by (cases "mounted s") (auto split: if_splits)
  have held: "revocations h (trace s) = (if qrUrl (status s) = Some h then 0 else 1)"
    if "mounted s" and "h \<in> set (creations (trace s))" for h
    using r [OF that(1), of h] c [of h] that(2) by simp
  have torn: "revocations h (trace s') = 1"
    if m: "mounted s" and run: "run (Unmount # evs') s = Some s'"
      and h: "h \<in> set (creations (trace s))" for evs' s' h
  proof -
    from run obtain s1 where s1: "step Unmount s = Some s1" and rest: "run evs' s1 = Some s'"
      by (auto split: option.splits if_splits)
    from s1 m have nm: "\<not> mounted s1" by (auto split: if_splits)
    from step_handles [OF s1] m nm
    have "revocations h (trace s1) = revocations h (trace s) +
        (if qrUrl (status s) = Some h then 1 else 0)" by simp
    with held [OF m h] have "revocations h (trace s1) = 1" by simp
    with run_unmounted [OF rest nm] show ?thesis by simp
  qed
  from once only held torn show ?thesis by blast
qed

theorem handle_released_once_witness:
  "run demo_events App_init = Some replaced_form
   \<and> mounted replaced_form
   \<and> creations (trace replaced_form) = [0, 1]
   \<and> qrUrl (status replaced_form) = Some 1
   \<and> revocations 0 (trace replaced_form) = 1
   \<and> revocations 1 (trace replaced_form) = 0
   \<and> run [Unmount] replaced_form = Some torn_form
   \<and> revocations 0 (trace torn_form) = 1
   \<and> revocations 1 (trace torn_form) = 1"
proof -
  note t = handle_released_once [OF run_demo]
  from t replaced_form_simps(1) have
    held: "\<forall>h\<in>set (creations (trace replaced_form)).
            revocations h (trace replaced_form)
              = (if qrUrl (status replaced_form) = Some h then 0 else 1)"
    and torn: "\<forall>evs' s'. run (Unmount # evs') replaced_form = Some s' \<longrightarrow>
            (\<forall>h\<in>set (creations (trace replaced_form)). revocations h (trace s') = 1)"
    by blast+
  from torn run_torn have "\<forall>h\<in>set (creations (trace replaced_form)).
      revocations h (trace torn_form) = 1" by blast
  with held run_demo run_torn replaced_form_simps show ?thesis by simp
qed

text \<open>
  The handle of a response that arrives after the teardown: it is created, and nothing
  releases it.
\<close>

lemma late_response_handle:
  "\<exists>s. run [Submit, Unmount, Settle (Responded 200 None)] App_init = Some s
      \<and> \<not> mounted s \<and> creations (trace s) = [0] \<and> revocations 0 (trace s) = 0"
  by (simp add: eval_defs)

section \<open>Outbound requests\<close>

lemma key_neq:
  "lit ''text'' \<noteq> lit ''size''" "lit ''text'' \<noteq> lit ''color''"
  "lit ''text'' \<noteq> lit ''background''" "lit ''text'' \<noteq> lit ''margin''"
  "lit ''size'' \<noteq> lit ''text''" "lit ''size'' \<noteq> lit ''color''"
  "lit ''size'' \<noteq> lit ''background''" "lit ''size'' \<noteq> lit ''margin''"
  "lit ''color'' \<noteq> lit ''text''" "lit ''color'' \<noteq> lit ''size''"
  "lit ''color'' \<noteq> lit ''background''" "lit ''color'' \<noteq> lit ''margin''"
  "lit ''background'' \<noteq> lit ''text''" "lit ''background'' \<noteq> lit ''size''"
  "lit ''background'' \<noteq> lit ''color''" "lit ''background'' \<noteq> lit ''margin''"
  "lit ''margin'' \<noteq> lit ''text''" "lit ''margin'' \<noteq> lit ''size''"
  "lit ''margin'' \<noteq> lit ''color''" "lit ''margin'' \<noteq> lit ''background''"
  by (simp_all add: lit_def)

lemma config_shape_init: "config_shape (config App_init)"
  by (auto simp: config_shape_def App_init_def is_string_def is_number_or_empty_def key_neq)

lemma config_shape_string:
  assumes "config_shape c" and "k \<in> {lit ''text'', lit ''color'', lit ''background''}"
  shows "config_shape (c(k \<mapsto> JStr v))"
  using assms
  by (auto simp: config_shape_def is_string_def is_number_or_empty_def key_neq)

lemma config_shape_number:
  assumes "config_shape c" and "k \<in> {lit ''size'', lit ''margin''}"
    and "x = JStr [] \<or> (\<exists>n. x = JNum n)"
  shows "config_shape (c(k \<mapsto> x))"
  using assms
  by (auto simp: config_shape_def is_string_def is_number_or_empty_def key_neq)

lemma step_Change_config:
  assumes "step (Change c v) s = Some s'"
  shows "fetches (trace s') = fetches (trace s)
       \<and> (config s' = config s
           \<or> (c \<in> {Size, Margin} \<and> (\<exists>x. config s' = (config s)(target_name c \<mapsto> x)
                 \<and> (x = JStr [] \<or> (\<exists>n. x = JNum n))))
           \<or> (c \<in> {Content, Foreground, Background}
                 \<and> config s' = (config s)(target_name c \<mapsto> JStr v)))"
proof -
  from assms have m: "mounted s" by (auto split: if_splits)
  show ?thesis
  proof (cases "c \<in> {Size, Margin}")
    case True
    then have t: "target_type c = lit ''number''" by auto
    show ?thesis
    proof (cases "v = []")
      case e: True
      with assms m t True handleInputChange_number(1) [OF m, of "target_name c"] show ?thesis
        by (auto simp: commit_def)
    next
      case ne: False
      show ?thesis
      proof (cases "parseInt v")
        case None
        with assms m t ne handleInputChange_number(3) [OF m ne None, of "target_name c"]
        show ?thesis by (auto simp: commit_def)
      next
        case (Some num)
        with assms m t True ne handleInputChange_number(2) [OF m ne Some, of "target_name c"]
        show ?thesis by (auto simp: commit_def)
      qed
    qed
  next
    case False
    then have c: "c \<in> {Content, Foreground, Background}" by (cases c) auto
    then have "target_type c \<noteq> lit ''number''" using lit_types by auto
    from handleInputChange_verbatim [OF m this] assms m c show ?thesis
      by (auto simp: commit_def)
  qed
qed

lemma stringify_shape:
  assumes "config_shape c"
  shows "body_shape (\<lambda>k. map_option SerializeJSONProperty (c k))"
proof -
  have d: "dom (\<lambda>k. map_option SerializeJSONProperty (c k)) = dom c"
    by (auto simp: dom_def)
  have str: "is_json_string (map_option SerializeJSONProperty v)" if "is_string v" for v
    using that by (auto simp: is_string_def is_json_string_def split: option.splits jsval.splits)
  have num: "is_json_integer_or_empty_or_null (map_option SerializeJSONProperty v)"
    if "is_number_or_empty v" for v
  proof (cases v)
    case None
    with that show ?thesis by (simp add: is_number_or_empty_def)
  next
    case (Some x)
    show ?thesis
    proof (cases x)
      case (JNum n)
      with Some show ?thesis
        by (cases n) (simp_all add: is_json_integer_or_empty_or_null_def)
    next
      case (JStr t)
      with Some that show ?thesis
        by (simp add: is_number_or_empty_def is_json_integer_or_empty_or_null_def)
    qed
  qed
  from assms show ?thesis
    unfolding body_shape_def config_shape_def d using str num by blast
qed

lemma stringify_property:
  "property (JSON_stringify c) k = map_option SerializeJSONProperty (c k)"
  by (simp add: JSON_stringify_def)

lemma stringify_null:
  "property (JSON_stringify c) k = Some JSON_null
     \<longleftrightarrow> c k = Some (JNum PosInfinity) \<or> c k = Some (JNum NegInfinity)"
proof (cases "c k")
  case None
  then show ?thesis by (simp add: stringify_property)
next
  case (Some x)
  show ?thesis
  proof (cases x)
    case (JNum n)
    with Some show ?thesis by (cases n) (simp_all add: stringify_property)
  next
    case (JStr t)
    with Some show ?thesis by (simp add: stringify_property)
  qed
qed

lemma step_Submit_fetches:
  assumes "step Submit s = Some s'"
  shows "config s' = config s
       \<and> (fetches (trace s') = fetches (trace s)
          \<or> fetches (trace s') = fetches (trace s) @
               [\<lparr> url = lit ''/api/qrcode'', http_method = lit ''POST'',
                  headers = [(lit ''Content-Type'', lit ''application/json'')],
                  body = JSON_stringify (config s) \<rparr>])"
  using assms
  by (auto simp: generateQRCode_def setStatus_def fetch_def emit_def commit_def cleanup_def
        Let_def split: if_splits option.splits jsval.splits sum.splits)

lemma step_other_fetches:
  assumes "step e s = Some s'" and "e = Unmount \<or> (\<exists>out. e = Settle out)"
  shows "config s' = config s \<and> fetches (trace s') = fetches (trace s)"
  using assms
  by (auto simp: resume_def catch_clause_def createObjectURL_def setStatus_def
          emit_def commit_def cleanup_def Let_def
          split: if_splits option.splits outcome.splits)

lemma step_requests_inv:
  assumes inv: "requests_inv s" and st: "step e s = Some s'"
  shows "requests_inv s'"
proof (cases e)
  case (Change c v)
  from step_Change_config [OF st [unfolded Change]]
  have f: "fetches (trace s') = fetches (trace s)"
    and c: "config s' = config s
           \<or> (c \<in> {Size, Margin} \<and> (\<exists>x. config s' = (config s)(target_name c \<mapsto> x)
                 \<and> (x = JStr [] \<or> (\<exists>n. x = JNum n))))
           \<or> (c \<in> {Content, Foreground, Background}
                 \<and> config s' = (config s)(target_name c \<mapsto> JStr v))" by blast+
  from inv have cs: "config_shape (config s)" by (simp add: requests_inv_def)
  from c consider (same) "config s' = config s"
    | (number) x where "c \<in> {Size, Margin}" "config s' = (config s)(target_name c \<mapsto> x)"
        "x = JStr [] \<or> (\<exists>n. x = JNum n)"
    | (string) "c \<in> {Content, Foreground, Background}"
        "config s' = (config s)(target_name c \<mapsto> JStr v)"
    by blast
  then have "config_shape (config s')"
  proof cases
    case same
    with cs show ?thesis by simp
  next
    case number
    from number(1) have "target_name c \<in> {lit ''size'', lit ''margin''}" by auto
    from config_shape_number [OF cs this number(3)] number(2) show ?thesis by simp
  next
    case string
    from string(1) have "target_name c \<in> {lit ''text'', lit ''color'', lit ''background''}"
      by auto
    from config_shape_string [OF cs this] string(2) show ?thesis by simp
  qed
  with inv f show ?thesis by (simp add: requests_inv_def)
next
  case Submit
  from inv have cs: "config_shape (config s)" by (simp add: requests_inv_def)
  have "request_shape \<lparr> url = lit ''/api/qrcode'', http_method = lit ''POST'',
                  headers = [(lit ''Content-Type'', lit ''application/json'')],
                  body = JSON_stringify (config s) \<rparr>"
    using stringify_shape [OF cs] by (simp add: request_shape_def JSON_stringify_def)
  with step_Submit_fetches [OF st [unfolded Submit]] inv show ?thesis
    by (auto simp: requests_inv_def)
next
  case (Settle out)
  with step_other_fetches [OF st] inv show ?thesis by (simp add: requests_inv_def)
next
  case Unmount
  with step_other_fetches [OF st] inv show ?thesis by (simp add: requests_inv_def)
qed

text \<open>
  Claim C8, as the code has it. Every request issued in a reachable state is a POST to
  \<^verbatim>\<open>/api/qrcode\<close> with the single header \<^verbatim>\<open>Content-Type: application/json\<close>, and its body is
  a JSON object with exactly the keys text, size, color, background and margin, where
  text, color and background are strings and size and margin are integers, the empty
  sentinel or \<^verbatim>\<open>null\<close>. The body of a request is the configuration at the moment of the
  submit, each property serialized; a member is \<^verbatim>\<open>null\<close> exactly when the number stored
  under its key is an infinity.
\<close>

theorem outbound_request:
  assumes "run evs App_init = Some s"
  shows "(\<forall>r\<in>set (fetches (trace s)).
            url r = lit ''/api/qrcode''
            \<and> http_method r = lit ''POST''
            \<and> headers r = [(lit ''Content-Type'', lit ''application/json'')]
            \<and> (\<exists>b. body r = JSON_object b \<and> body_shape b))
       \<and> config_shape (config s)
       \<and> (\<forall>s'. step Submit s = Some s' \<longrightarrow>
            fetches (trace s') = fetches (trace s)
            \<or> fetches (trace s') = fetches (trace s) @
                 [\<lparr> url = lit ''/api/qrcode'', http_method = lit ''POST'',
                    headers = [(lit ''Content-Type'', lit ''application/json'')],
                    body = JSON_stringify (config s) \<rparr>])
       \<and> property (JSON_stringify (config s)) k = map_option SerializeJSONProperty (config s k)
       \<and> (property (JSON_stringify (config s)) k = Some JSON_null
            \<longleftrightarrow> config s k = Some (JNum PosInfinity) \<or> config s k = Some (JNum NegInfinity))"
proof -
  have init: "requests_inv App_init"
    using config_shape_init by (simp add: requests_inv_def App_init_simps)
  have inv: "requests_inv s"
    by (rule run_invariant [where P = requests_inv, OF assms init]) (rule step_requests_inv)
  have "\<exists>b. body r = JSON_object b \<and> body_shape b" if "request_shape r" for r
    using that by (cases "body r") (auto simp: request_shape_def)
  with inv have "\<forall>r\<in>set (fetches (trace s)).
            url r = lit ''/api/qrcode''
            \<and> http_method r = lit ''POST''
            \<and> headers r = [(lit ''Content-Type'', lit ''application/json'')]
            \<and> (\<exists>b. body r = JSON_object b \<and> body_shape b)"
    by (simp add: requests_inv_def request_shape_def)
  moreover from inv have "config_shape (config s)" by (simp add: requests_inv_def)
  moreover have "\<forall>s'. step Submit s = Some s' \<longrightarrow>
            fetches (trace s') = fetches (trace s)
            \<or> fetches (trace s') = fetches (trace s) @
                 [\<lparr> url = lit ''/api/qrcode'', http_method = lit ''POST'',
                    headers = [(lit ''Content-Type'', lit ''application/json'')],
                    body = JSON_stringify (config s) \<rparr>]"
    using step_Submit_fetches by blast
  moreover note stringify_property [of "config s" k] stringify_null [of "config s" k]
  ultimately show ?thesis by blast
qed

theorem outbound_request_witness:
  "run demo_events App_init = Some replaced_form
   \<and> fetches (trace replaced_form) =
        [\<lparr> url = lit ''/api/qrcode'', http_method = lit ''POST'',
           headers = [(lit ''Content-Type'', lit ''application/json'')],
           body = JSON_stringify (config App_init) \<rparr>,
         \<lparr> url = lit ''/api/qrcode'', http_method = lit ''POST'',
           headers = [(lit ''Content-Type'', lit ''application/json'')],
           body = JSON_stringify (config App_init) \<rparr>]
   \<and> (\<exists>b. JSON_stringify (config App_init) = JSON_object b \<and> body_shape b)
   \<and> config_shape (config replaced_form)
   \<and> (\<exists>s'. step Submit replaced_form = Some s'
          \<and> fetches (trace s') = fetches (trace replaced_form) @
                 [\<lparr> url = lit ''/api/qrcode'', http_method = lit ''POST'',
                    headers = [(lit ''Content-Type'', lit ''application/json'')],
                    body = JSON_stringify (config replaced_form) \<rparr>])
   \<and> property (JSON_stringify (config replaced_form)) (lit ''size'') = Some (JSON_number 300)"
proof -
  note t = outbound_request [OF run_demo, of "lit ''size''"]
  have c: "config replaced_form = config App_init"
    by (simp add: replaced_form_def demo_events_def eval_defs)
  have f: "fetches (trace replaced_form) =
        [\<lparr> url = lit ''/api/qrcode'', http_method = lit ''POST'',
           headers = [(lit ''Content-Type'', lit ''application/json'')],
           body = JSON_stringify (config App_init) \<rparr>,
         \<lparr> url = lit ''/api/qrcode'', http_method = lit ''POST'',
           headers = [(lit ''Content-Type'', lit ''application/json'')],
           body = JSON_stringify (config App_init) \<rparr>]"
    using generateQRCode_valid [OF App_init_simps(1,2) trim_examples(2)]
    by (simp add: replaced_form_def demo_events_def App_init_simps resume_def response_ok_def
          createObjectURL_def setStatus_def emit_def commit_def cleanup_def generateQRCode_def
          fetch_def Let_def trim_examples)
  from t f have b: "\<exists>b. JSON_stringify (config App_init) = JSON_object b \<and> body_shape b"
    by simp
  have sub: "\<exists>s'. step Submit replaced_form = Some s'
          \<and> fetches (trace s') = fetches (trace replaced_form) @
                 [\<lparr> url = lit ''/api/qrcode'', http_method = lit ''POST'',
                    headers = [(lit ''Content-Type'', lit ''application/json'')],
                    body = JSON_stringify (config replaced_form) \<rparr>]"
    using generateQRCode_valid [OF replaced_form_simps(1) _ trim_examples(2)] c
      App_init_simps(2) replaced_form_simps
    by (simp add: commit_def cleanup_def emit_def)
  from t c have p: "property (JSON_stringify (config replaced_form)) (lit ''size'')
      = Some (JSON_number 300)"
    by (simp add: App_init_simps)
  from t b f sub p run_demo show ?thesis by blast
qed

lemma huge_digits_simps:
  "huge_digits \<noteq> []" "\<forall>c\<in>set huge_digits. is_digit c" "length huge_digits = 309"
  "mathInt huge_digits = 2 * 10 ^ 308"
proof -
  have "mathInt (lit ''2'') = 2" by (simp add: lit_def mathInt_def digit_val_def)
  then show "mathInt huge_digits = 2 * 10 ^ 308"
    unfolding huge_digits_def mathInt_zeros by simp
qed (simp_all add: huge_digits_def lit_def is_digit_def)

lemma parseInt_huge: "parseInt huge_digits = Some PosInfinity"
proof -
  have e: "bit_length (nat \<bar>2 * 10 ^ 308\<bar>) = 1025" by (simp add: bit_length.simps)
  have n: "Number_value (2 * 10 ^ 308) = PosInfinity"
    unfolding Number_value_def Let_def e by simp
  from parseInt_leading_digits [of "[]" "[]" huge_digits "[]"] huge_digits_simps n
  show ?thesis by simp
qed

lemma run_overflow:
  "run overflow_events App_init = Some overflow_form"
  "config overflow_form = (config App_init)(lit ''size'' \<mapsto> JNum PosInfinity)"
  "fetches (trace overflow_form) =
     [\<lparr> url = lit ''/api/qrcode'', http_method = lit ''POST'',
        headers = [(lit ''Content-Type'', lit ''application/json'')],
        body = JSON_stringify ((config App_init)(lit ''size'' \<mapsto> JNum PosInfinity)) \<rparr>]"
proof -
  define s1 where "s1 = App_init
    \<lparr>config := (config App_init)(lit ''size'' \<mapsto> JNum PosInfinity),
     trace := trace App_init @ [SetConfig ((config App_init)(lit ''size'' \<mapsto> JNum PosInfinity))]\<rparr>"
  have h: "handleInputChange (lit ''size'') huge_digits (lit ''number'') App_init = s1"
    unfolding s1_def
    by (rule handleInputChange_number(2) [OF App_init_simps(1) huge_digits_simps(1) parseInt_huge])
  have m1: "mounted s1" "\<not> loading (status s1)" "qrUrl (status s1) = qrUrl (status App_init)"
    "config s1 (lit ''text'') = Some (JStr (lit ''https://example.com''))"
    by (simp_all add: s1_def App_init_simps key_neq)
  have st1: "step (Change Size huge_digits) App_init = Some s1"
    using h m1(3) by (simp add: App_init_simps commit_def)
  note g = generateQRCode_valid [OF m1(1) m1(4) trim_examples(2)]
  have r: "run overflow_events App_init = Some
      (s1\<lparr>status := \<lparr> loading = True, qrUrl = None, error = None \<rparr>,
          in_flight := Suc (in_flight s1),
          trace := trace s1 @
             [SetStatus \<lparr> loading = True, qrUrl = None, error = None \<rparr>,
              Fetch \<lparr> url = lit ''/api/qrcode'', http_method = lit ''POST'',
                      headers = [(lit ''Content-Type'', lit ''application/json'')],
                      body = JSON_stringify (config s1) \<rparr>]\<rparr>)"
    using st1 g m1 by (simp add: overflow_events_def commit_def App_init_simps)
  then show "run overflow_events App_init = Some overflow_form"
    by (simp add: overflow_form_def)
  from r show "config overflow_form = (config App_init)(lit ''size'' \<mapsto> JNum PosInfinity)"
    by (simp add: overflow_form_def s1_def)
  from r show "fetches (trace overflow_form) =
     [\<lparr> url = lit ''/api/qrcode'', http_method = lit ''POST'',
        headers = [(lit ''Content-Type'', lit ''application/json'')],
        body = JSON_stringify ((config App_init)(lit ''size'' \<mapsto> JNum PosInfinity)) \<rparr>]"
    by (simp add: overflow_form_def s1_def App_init_simps)
qed

text \<open>
  Claim C8 as stated fails: a numeral of 309 digits typed into the size control is stored
  as Infinity, and the request of the submit that follows carries \<^verbatim>\<open>null\<close> under size,
  which is neither an integer nor the empty sentinel.
\<close>

theorem outbound_request_counterexample:
  "list_all is_digit huge_digits
   \<and> length huge_digits = 309
   \<and> run overflow_events App_init = Some overflow_form
   \<and> config overflow_form (lit ''size'') = Some (JNum PosInfinity)
   \<and> map body (fetches (trace overflow_form)) = [JSON_stringify (config overflow_form)]
   \<and> property (JSON_stringify (config overflow_form)) (lit ''size'') = Some JSON_null"
  using huge_digits_simps run_overflow
  by (simp add: list_all_iff stringify_property)

end
